theory Spec2Isabelle
  imports Complex_Main "HOL-Library.AList"
begin

section \<open>Numbers, coordinates and geometries\<close>

text \<open>
  The detector computes with JavaScript numbers. Coordinates are modelled as real
  numbers (rounding is not modelled); the two infinities are kept, because the code
  starts a minimum at \<^verbatim>\<open>Infinity\<close>, returns \<^verbatim>\<open>Infinity\<close> for a
  feature without geometry, and the extent of an empty coordinate sequence is
  \<^verbatim>\<open>[Infinity, Infinity, -Infinity, -Infinity]\<close>.
\<close>

datatype number = NegInfinity | Finite real | Infinity

instantiation number :: linorder
begin

fun less_eq_number :: "number \<Rightarrow> number \<Rightarrow> bool" where
  "less_eq_number NegInfinity _ = True"
| "less_eq_number _ Infinity = True"
| "less_eq_number (Finite a) (Finite b) = (a \<le> b)"
| "less_eq_number _ _ = False"

definition less_number :: "number \<Rightarrow> number \<Rightarrow> bool" where
  "less_number a b = (a \<le> b \<and> \<not> b \<le> a)"

instance
proof
  fix x y z :: number
  show "(x < y) = (x \<le> y \<and> \<not> y \<le> x)"
    by (simp add: less_number_def)
  show "x \<le> x"
    by (cases x) simp_all
  show "x \<le> y \<Longrightarrow> y \<le> z \<Longrightarrow> x \<le> z"
    by (cases x; cases y; cases z) simp_all
  show "x \<le> y \<Longrightarrow> y \<le> x \<Longrightarrow> x = y"
    by (cases x; cases y) simp_all
  show "x \<le> y \<or> y \<le> x"
    by (cases x; cases y) auto
qed

end

type_synonym coord = "real \<times> real"

text \<open>An OpenLayers extent \<^verbatim>\<open>[minX, minY, maxX, maxY]\<close>.\<close>

type_synonym extent = "number \<times> number \<times> number \<times> number"

text \<open>
  The geometry kinds the detector distinguishes with \<^verbatim>\<open>instanceof\<close>. A polygon is
  its list of rings, the exterior ring first. Any other geometry is known to the
  detector by its extent only: either the empty extent or a finite box.
\<close>

datatype other_extent = EmptyExtent | Box real real real real

datatype Geometry =
    Point coord
  | LineString "coord list"
  | Polygon "coord list list"
  | Other other_extent

text \<open>
  A feature is a caller-owned object; \<open>fid\<close> stands for its identity (two features
  are the same object iff they are equal as records), \<open>getGeometry\<close> is
  \<^verbatim>\<open>feature.getGeometry()\<close>, which may be undefined.
\<close>

record Feature =
  fid :: nat
  getGeometry :: "Geometry option"

subsection \<open>The geometry collaborator: extents\<close>

text \<open>
  Modelled from the spec: \<^verbatim>\<open>getExtent\<close> belongs to the geometry library, which
  is not part of the sources. The extent is the axis-aligned bounding box of the
  geometry's coordinates; for a polygon, of all its rings.
\<close>

definition emptyExtent :: extent where
  "emptyExtent = (Infinity, Infinity, NegInfinity, NegInfinity)"

fun extendCoordinate :: "extent \<Rightarrow> coord \<Rightarrow> extent" where
  "extendCoordinate (x0, y0, x1, y1) (x, y) =
     (min x0 (Finite x), min y0 (Finite y), max x1 (Finite x), max y1 (Finite y))"

definition extentOfCoordinates :: "coord list \<Rightarrow> extent" where
  "extentOfCoordinates cs = foldl extendCoordinate emptyExtent cs"

fun getExtent :: "Geometry \<Rightarrow> extent" where
  "getExtent (Point c) = extentOfCoordinates [c]"
| "getExtent (LineString cs) = extentOfCoordinates cs"
| "getExtent (Polygon rings) = extentOfCoordinates (concat rings)"
| "getExtent (Other EmptyExtent) = emptyExtent"
| "getExtent (Other (Box x0 y0 x1 y1)) = (Finite x0, Finite y0, Finite x1, Finite y1)"

fun getLinearRing :: "coord list list \<Rightarrow> nat \<Rightarrow> coord list option" where
  "getLinearRing rings i = (if i < length rings then Some (rings ! i) else None)"

section \<open>The bounding-volume index\<close>

record IndexItem =
  minX :: number
  minY :: number
  maxX :: number
  maxY :: number
  feature :: Feature
  segmentIndex :: "nat option"
  segmentStart :: "coord option"
  segmentEnd :: "coord option"

record BBox =
  bminX :: number
  bminY :: number
  bmaxX :: number
  bmaxY :: number

text \<open>
  Modelled from the spec: the box index (the \<^verbatim>\<open>rbush\<close> package) is not part of the
  sources. It owns a collection of items; \<open>load\<close> replaces the content, \<open>search\<close>
  returns every item whose box intersects the query box, \<open>clear\<close> removes all items.
  The collection is a list, so that a search result has an order; no theorem below
  depends on which order the index uses. The detector only ever loads into an index
  it has just cleared.
\<close>

type_synonym RBush = "IndexItem list"

definition rb_clear :: "RBush \<Rightarrow> RBush" where
  "rb_clear t = []"

definition rb_load :: "IndexItem list \<Rightarrow> RBush \<Rightarrow> RBush" where
  "rb_load items t = items"

definition intersects :: "BBox \<Rightarrow> IndexItem \<Rightarrow> bool" where
  "intersects a b \<longleftrightarrow>
     minX b \<le> bmaxX a \<and> minY b \<le> bmaxY a \<and> maxX b \<ge> bminX a \<and> maxY b \<ge> bminY a"

definition rb_search :: "BBox \<Rightarrow> RBush \<Rightarrow> IndexItem list" where
  "rb_search box t = filter (intersects box) t"

section \<open>The detector\<close>

text \<open>
  The detector's fields. \<open>debounceTimers\<close> is the \<^verbatim>\<open>Map\<close> from debounce key to the
  handle of the pending timer, in insertion order.
\<close>

record detector =
  tree :: RBush
  features :: "Feature list"
  debounceTimers :: "(string \<times> nat) list"

datatype error = InvalidGeometry

text \<open>How a call that mutates the detector ends: it returns, or it throws; either
  way the detector is left in some state.\<close>

datatype outcome = Returned (state: detector) | Threw error (state: detector)

subsection \<open>Index construction\<close>

definition extentItem :: "Feature \<Rightarrow> extent \<Rightarrow> IndexItem" where
  "extentItem f e =
     (case e of (x0, y0, x1, y1) \<Rightarrow>
        \<lparr>minX = x0, minY = y0, maxX = x1, maxY = y1, feature = f,
         segmentIndex = None, segmentStart = None, segmentEnd = None\<rparr>)"

definition segmentItem :: "Feature \<Rightarrow> coord list \<Rightarrow> nat \<Rightarrow> IndexItem" where
  "segmentItem f coords i =
     (case (coords ! i, coords ! (i + 1)) of ((x1, y1), (x2, y2)) \<Rightarrow>
        let mnX = min x1 x2; mxX = max x1 x2; mnY = min y1 y2; mxY = max y1 y2;
            padding = max (max ((mxX - mnX) * 0.1) ((mxY - mnY) * 0.1)) 0.0001
        in \<lparr>minX = Finite (mnX - padding), minY = Finite (mnY - padding),
            maxX = Finite (mxX + padding), maxY = Finite (mxY + padding),
            feature = f, segmentIndex = Some i,
            segmentStart = Some (coords ! i), segmentEnd = Some (coords ! (i + 1))\<rparr>)"

text \<open>\<open>indexLineString\<close> receives the line string (or ring) as its coordinates.\<close>

definition indexLineString :: "Feature \<Rightarrow> coord list \<Rightarrow> IndexItem list" where
  "indexLineString f coords =
     (if length coords \<le> 2 then [extentItem f (extentOfCoordinates coords)]
      else map (segmentItem f coords) [0 ..< length coords - 1]
           @ [extentItem f (extentOfCoordinates coords)])"

definition indexPolygon :: "Feature \<Rightarrow> coord list list \<Rightarrow> IndexItem list" where
  "indexPolygon f rings =
     (case getLinearRing rings 0 of
        Some exteriorRing \<Rightarrow> indexLineString f exteriorRing
      | None \<Rightarrow> [])
     @ [extentItem f (getExtent (Polygon rings))]"

definition indexGeometry :: "Feature \<Rightarrow> Geometry \<Rightarrow> IndexItem list" where
  "indexGeometry f g =
     (case g of
        LineString coords \<Rightarrow> indexLineString f coords
      | Polygon rings \<Rightarrow> indexPolygon f rings
      | _ \<Rightarrow> [extentItem f (getExtent g)])"

text \<open>The loop of \<open>updateFeatures\<close> over the features, with the local \<open>items\<close>.\<close>

fun indexFeatures :: "Feature list \<Rightarrow> IndexItem list \<Rightarrow> error + IndexItem list" where
  "indexFeatures [] items = Inr items"
| "indexFeatures (f # fs) items =
     (case getGeometry f of
        None \<Rightarrow> Inl InvalidGeometry
      | Some g \<Rightarrow> indexFeatures fs (items @ indexGeometry f g))"

definition updateFeatures :: "Feature list \<Rightarrow> detector \<Rightarrow> outcome" where
  "updateFeatures fs d =
     (let d1 = d\<lparr>features := fs\<rparr>;
          d2 = d1\<lparr>tree := rb_clear (tree d1)\<rparr>
      in case indexFeatures fs [] of
           Inl e \<Rightarrow> Threw e d2
         | Inr items \<Rightarrow> Returned (d2\<lparr>tree := rb_load items (tree d2)\<rparr>))"

text \<open>The constructor: an empty index, loaded when features are given.\<close>

definition emptyDetector :: detector where
  "emptyDetector = \<lparr>tree = [], features = [], debounceTimers = []\<rparr>"

definition newDetector :: "Feature list \<Rightarrow> outcome" where
  "newDetector fs =
     (let d = emptyDetector
      in if length fs > 0 then updateFeatures fs d else Returned d)"

subsection \<open>Exact distances\<close>

definition getDistanceToPoint :: "coord \<Rightarrow> coord \<Rightarrow> real" where
  "getDistanceToPoint coordinate pointCoord =
     (let dx = fst coordinate - fst pointCoord;
          dy = snd coordinate - snd pointCoord
      in sqrt (dx * dx + dy * dy))"

definition getDistanceToSegment :: "coord \<Rightarrow> coord \<Rightarrow> coord \<Rightarrow> real" where
  "getDistanceToSegment point segStart segEnd =
     (let dx = fst segEnd - fst segStart;
          dy = snd segEnd - snd segStart
      in if dx = 0 \<and> dy = 0 then
           (let pdx = fst point - fst segStart;
                pdy = snd point - snd segStart
            in sqrt (pdx * pdx + pdy * pdy))
         else
           (let t = max 0 (min 1
                  (((fst point - fst segStart) * dx + (snd point - snd segStart) * dy) /
                   (dx * dx + dy * dy)));
                projX = fst segStart + t * dx;
                projY = snd segStart + t * dy;
                pdx = fst point - projX;
                pdy = snd point - projY
            in sqrt (pdx * pdx + pdy * pdy)))"

text \<open>
  The first loop of \<open>getDistanceToLineString\<close>, over consecutive coordinate pairs:
  \<open>Inl\<close> is the early \<^verbatim>\<open>return 0\<close>, \<open>Inr\<close> the minimum when the loop ends.
\<close>

fun segmentLoop :: "coord \<Rightarrow> coord list \<Rightarrow> number \<Rightarrow> number + number" where
  "segmentLoop p (a # b # rest) minDistance =
     (let distance = getDistanceToSegment p a b;
          minDistance' = min minDistance (Finite distance)
      in if minDistance' = Finite 0 then Inl (Finite 0)
         else segmentLoop p (b # rest) minDistance')"
| "segmentLoop p _ minDistance = Inr minDistance"

fun vertexLoop :: "coord \<Rightarrow> coord list \<Rightarrow> number \<Rightarrow> number" where
  "vertexLoop p [] minDistance = minDistance"
| "vertexLoop p (vertex # rest) minDistance =
     (let dx = fst p - fst vertex;
          dy = snd p - snd vertex;
          distance = sqrt (dx * dx + dy * dy)
      in vertexLoop p rest (min minDistance (Finite distance)))"

definition getDistanceToLineString :: "coord \<Rightarrow> coord list \<Rightarrow> number" where
  "getDistanceToLineString coordinate coords =
     (case segmentLoop coordinate coords Infinity of
        Inl r \<Rightarrow> r
      | Inr minDistance \<Rightarrow> vertexLoop coordinate coords minDistance)"

text \<open>
  \<^verbatim>\<open>polygon.intersectsCoordinate\<close> is the geometry library's point-in-polygon test.
  It is not part of the sources, so the functions that reach it take it as the
  parameter \<open>inside\<close>.
\<close>

type_synonym containment = "coord list list \<Rightarrow> coord \<Rightarrow> bool"

definition getDistanceToPolygon :: "containment \<Rightarrow> coord \<Rightarrow> coord list list \<Rightarrow> number" where
  "getDistanceToPolygon inside coordinate rings =
     (if inside rings coordinate then Finite 0
      else case getLinearRing rings 0 of
             Some exteriorRing \<Rightarrow> getDistanceToLineString coordinate exteriorRing
           | None \<Rightarrow> Infinity)"

text \<open>
  For a geometry of another kind the code compares the coordinate with the extent.
  With the empty extent \<^verbatim>\<open>[Infinity, Infinity, -Infinity, -Infinity]\<close> the
  inside test fails and both \<^verbatim>\<open>dx\<close> and \<^verbatim>\<open>dy\<close> are \<^verbatim>\<open>Infinity\<close>,
  so the distance is \<^verbatim>\<open>Infinity\<close>.
\<close>

fun getDistanceToFeature :: "containment \<Rightarrow> coord \<Rightarrow> Feature \<Rightarrow> number" where
  "getDistanceToFeature inside coordinate f =
     (case getGeometry f of
        None \<Rightarrow> Infinity
      | Some (Point c) \<Rightarrow> Finite (getDistanceToPoint coordinate c)
      | Some (LineString coords) \<Rightarrow> getDistanceToLineString coordinate coords
      | Some (Polygon rings) \<Rightarrow> getDistanceToPolygon inside coordinate rings
      | Some (Other EmptyExtent) \<Rightarrow> Infinity
      | Some (Other (Box e0 e1 e2 e3)) \<Rightarrow>
          (let x = fst coordinate; y = snd coordinate
           in if x \<ge> e0 \<and> x \<le> e2 \<and> y \<ge> e1 \<and> y \<le> e3 then Finite 0
              else (let dx = max (max (e0 - x) 0) (x - e2);
                        dy = max (max (e1 - y) 0) (y - e3)
                    in Finite (sqrt (dx * dx + dy * dy)))))"

subsection \<open>Detection at a coordinate\<close>

record Hit =
  hitFeature :: Feature
  distance :: number

definition candidateDistance :: "containment \<Rightarrow> coord \<Rightarrow> IndexItem \<Rightarrow> number" where
  "candidateDistance inside coordinate candidate =
     (case (segmentStart candidate, segmentEnd candidate) of
        (Some s, Some e) \<Rightarrow> Finite (getDistanceToSegment coordinate s e)
      | _ \<Rightarrow> getDistanceToFeature inside coordinate (feature candidate))"

text \<open>
  The body of the loop over the candidates, on the locals \<open>seen\<close> and \<open>hits\<close>,
  and the loop itself.
\<close>

definition scanStep ::
  "containment \<Rightarrow> coord \<Rightarrow> real \<Rightarrow> Feature set \<times> Hit list \<Rightarrow> IndexItem
     \<Rightarrow> Feature set \<times> Hit list" where
  "scanStep inside coordinate tolerance acc candidate =
     (case acc of (seen, hits) \<Rightarrow>
        if feature candidate \<in> seen then (seen, hits)
        else
          (let d = candidateDistance inside coordinate candidate
           in if d \<le> Finite tolerance then
                (if feature candidate \<notin> seen then
                   (insert (feature candidate) seen,
                    hits @ [\<lparr>hitFeature = feature candidate, distance = d\<rparr>])
                 else (seen, hits))
              else (seen, hits)))"

definition scanCandidates ::
  "containment \<Rightarrow> coord \<Rightarrow> real \<Rightarrow> IndexItem list \<Rightarrow> Feature set \<times> Hit list" where
  "scanCandidates inside coordinate tolerance candidates =
     foldl (scanStep inside coordinate tolerance) ({}, []) candidates"

definition queryBox :: "coord \<Rightarrow> real \<Rightarrow> BBox" where
  "queryBox coordinate tolerance =
     \<lparr>bminX = Finite (fst coordinate - tolerance), bminY = Finite (snd coordinate - tolerance),
      bmaxX = Finite (fst coordinate + tolerance), bmaxY = Finite (snd coordinate + tolerance)\<rparr>"

text \<open>
  The hits before the final \<^verbatim>\<open>map\<close>: sorted by the comparator
  \<^verbatim>\<open>a.distance - b.distance\<close> with the stable sort of the language.
\<close>

definition sortedHits :: "containment \<Rightarrow> detector \<Rightarrow> coord \<Rightarrow> real \<Rightarrow> Hit list" where
  "sortedHits inside d coordinate tolerance =
     (let candidates = rb_search (queryBox coordinate tolerance) (tree d)
      in sort_key distance (snd (scanCandidates inside coordinate tolerance candidates)))"

definition detectFeaturesAtCoordinate ::
  "containment \<Rightarrow> detector \<Rightarrow> coord \<Rightarrow> real \<Rightarrow> Feature list" where
  "detectFeaturesAtCoordinate inside d coordinate tolerance =
     map hitFeature (sortedHits inside d coordinate tolerance)"

section \<open>Detection at a pixel, immediate and debounced\<close>

text \<open>
  The map collaborator: \<^verbatim>\<open>map.getCoordinateFromPixel\<close> and
  \<^verbatim>\<open>map.getView().getResolution()\<close>. The options object carries the optional
  fields the two detection methods read.
\<close>

type_synonym pixel = "real \<times> real"

record MapView =
  getCoordinateFromPixel :: "pixel \<Rightarrow> coord"
  getResolution :: real

record DetectOptions =
  hitTolerance :: "real option"
  debounceDelay :: "nat option"
  debounceKey :: "string option"

definition detectFeaturesAtPixel ::
  "containment \<Rightarrow> detector \<Rightarrow> MapView \<Rightarrow> pixel \<Rightarrow> DetectOptions \<Rightarrow> Feature list" where
  "detectFeaturesAtPixel inside d m px options =
     (let coordinate = getCoordinateFromPixel m px;
          resolution = getResolution m;
          tolerance = (case hitTolerance options of None \<Rightarrow> 0 | Some h \<Rightarrow> h) * resolution
      in detectFeaturesAtCoordinate inside d coordinate tolerance)"

text \<open>
  A callback is caller code. Two kinds are modelled: an observer \<open>Notify i\<close> that
  records under the tag \<open>i\<close> the features it is handed, and \<open>NotifyThenDetect\<close>, which
  records them and then calls \<open>detectFeaturesAtPixelDebounced\<close> again with the given
  map, pixel, callback and options.
\<close>

datatype callback =
    Notify nat
  | NotifyThenDetect nat nat pixel callback DetectOptions

text \<open>
  Modelled from the spec: the timers of the runtime (\<^verbatim>\<open>setTimeout\<close>,
  \<^verbatim>\<open>clearTimeout\<close>) are not part of the sources; they are a cancellable
  scheduled-task abstraction on a manually advanced virtual clock, in milliseconds. A
  handle is a number that is never reused. A pending timer holds what
  the closure passed to \<^verbatim>\<open>setTimeout\<close> captured: key, map, pixel, callback and
  options. The world is the clock, the pending timers, the detector, the maps by
  reference and the record of what the observers were handed. A timer never runs in
  the turn that set it: a delay below one millisecond counts as one.
\<close>

record Timer =
  handle :: nat
  due :: nat
  tKey :: string
  tMap :: nat
  tPixel :: pixel
  tCallback :: callback
  tOptions :: DetectOptions

record world =
  clock :: nat
  pending :: "Timer list"
  nextHandle :: nat
  det :: detector
  maps :: "nat \<Rightarrow> MapView"
  delivered :: "(nat \<times> Feature list) list"

definition setDebounceTimers :: "(string \<times> nat) list \<Rightarrow> world \<Rightarrow> world" where
  "setDebounceTimers ts w = w\<lparr>det := (det w)\<lparr>debounceTimers := ts\<rparr>\<rparr>"

definition clearTimeout :: "nat \<Rightarrow> world \<Rightarrow> world" where
  "clearTimeout h w = w\<lparr>pending := filter (\<lambda>tm. handle tm \<noteq> h) (pending w)\<rparr>"

definition setTimeout ::
  "string \<Rightarrow> nat \<Rightarrow> pixel \<Rightarrow> callback \<Rightarrow> DetectOptions \<Rightarrow> nat \<Rightarrow> world \<Rightarrow> nat \<times> world" where
  "setTimeout key m px cb options delay w =
     (nextHandle w,
      w\<lparr>pending := pending w @
            [\<lparr>handle = nextHandle w, due = clock w + max 1 delay, tKey = key, tMap = m,
              tPixel = px, tCallback = cb, tOptions = options\<rparr>],
        nextHandle := Suc (nextHandle w)\<rparr>)"

text \<open>\<^verbatim>\<open>options.debounceKey || 'default'\<close> and \<^verbatim>\<open>options.debounceDelay ?? 50\<close>.\<close>

definition keyOf :: "DetectOptions \<Rightarrow> string" where
  "keyOf options =
     (case debounceKey options of
        None \<Rightarrow> ''default''
      | Some k \<Rightarrow> if k = [] then ''default'' else k)"

definition delayOf :: "DetectOptions \<Rightarrow> nat" where
  "delayOf options = (case debounceDelay options of None \<Rightarrow> 50 | Some n \<Rightarrow> n)"

definition detectFeaturesAtPixelDebounced ::
  "nat \<Rightarrow> pixel \<Rightarrow> callback \<Rightarrow> DetectOptions \<Rightarrow> world \<Rightarrow> world" where
  "detectFeaturesAtPixelDebounced m px cb options w =
     (let key = keyOf options;
          delay = delayOf options;
          existingTimer = map_of (debounceTimers (det w)) key;
          w1 = (case existingTimer of Some h \<Rightarrow> clearTimeout h w | None \<Rightarrow> w);
          (timer, w2) = setTimeout key m px cb options delay w1
      in setDebounceTimers (AList.update key timer (debounceTimers (det w2))) w2)"

fun runCallback :: "callback \<Rightarrow> Feature list \<Rightarrow> world \<Rightarrow> world" where
  "runCallback (Notify i) fs w = w\<lparr>delivered := delivered w @ [(i, fs)]\<rparr>"
| "runCallback (NotifyThenDetect i m px cb options) fs w =
     detectFeaturesAtPixelDebounced m px cb options (w\<lparr>delivered := delivered w @ [(i, fs)]\<rparr>)"

text \<open>
  The body of the scheduled closure: detect with the captured pixel and options on the
  detector and map as they are now, hand the result to the callback, then delete the
  key from \<open>debounceTimers\<close>. The runtime has removed the timer from the pending ones.
\<close>

definition fire :: "containment \<Rightarrow> Timer \<Rightarrow> world \<Rightarrow> world" where
  "fire inside tm w =
     (let w1 = clearTimeout (handle tm) w;
          fs = detectFeaturesAtPixel inside (det w1) (maps w1 (tMap tm)) (tPixel tm) (tOptions tm);
          w2 = runCallback (tCallback tm) fs w1
      in setDebounceTimers (AList.delete (tKey tm) (debounceTimers (det w2))) w2)"

text \<open>
  One millisecond of the event loop: the timers due when the turn starts run in the
  order they were set, unless cancelled meanwhile. \<open>advance n\<close> lets \<open>n\<close> milliseconds
  pass.
\<close>

definition fireHandle :: "containment \<Rightarrow> world \<Rightarrow> nat \<Rightarrow> world" where
  "fireHandle inside w h =
     (case find (\<lambda>tm. handle tm = h) (pending w) of
        None \<Rightarrow> w
      | Some tm \<Rightarrow> fire inside tm w)"

definition tick :: "containment \<Rightarrow> world \<Rightarrow> world" where
  "tick inside w =
     foldl (fireHandle inside) w (map handle (filter (\<lambda>tm. due tm \<le> clock w) (pending w)))"

fun advance :: "containment \<Rightarrow> nat \<Rightarrow> world \<Rightarrow> world" where
  "advance inside 0 w = w"
| "advance inside (Suc n) w = advance inside n (tick inside (w\<lparr>clock := Suc (clock w)\<rparr>))"

definition clearDebounceTimers :: "world \<Rightarrow> world" where
  "clearDebounceTimers w =
     setDebounceTimers []
       (foldl (\<lambda>w' timer. clearTimeout timer w') w (map snd (debounceTimers (det w))))"




section \<open>Vocabulary of the specification\<close>

text \<open>
  Segment items are the items that carry both endpoints; the others are whole-extent
  items. The contribution of a feature is the list of index items that refer to it.
\<close>

definition isSegmentItem :: "IndexItem \<Rightarrow> bool" where
  "isSegmentItem it \<longleftrightarrow> segmentStart it \<noteq> None \<and> segmentEnd it \<noteq> None"

definition segmentItems :: "IndexItem list \<Rightarrow> IndexItem list" where
  "segmentItems items = filter isSegmentItem items"

definition extentItems :: "IndexItem list \<Rightarrow> IndexItem list" where
  "extentItems items = filter (\<lambda>it. \<not> isSegmentItem it) items"

definition contributions :: "Feature \<Rightarrow> detector \<Rightarrow> IndexItem list" where
  "contributions f d = filter (\<lambda>it. feature it = f) (tree d)"

text \<open>
  The point-to-segment distance as the specification words it: project the query point
  onto the line through the endpoints, clamp the parameter to the unit interval, and
  take the Euclidean distance to the resulting point; a degenerate segment is its
  endpoint.
\<close>

definition euclideanDistance :: "coord \<Rightarrow> coord \<Rightarrow> real" where
  "euclideanDistance p q = sqrt ((fst p - fst q)\<^sup>2 + (snd p - snd q)\<^sup>2)"

definition projectionParameter :: "coord \<Rightarrow> coord \<Rightarrow> coord \<Rightarrow> real" where
  "projectionParameter p a b =
     ((fst p - fst a) * (fst b - fst a) + (snd p - snd a) * (snd b - snd a)) /
     ((fst b - fst a)\<^sup>2 + (snd b - snd a)\<^sup>2)"

definition clampUnit :: "real \<Rightarrow> real" where
  "clampUnit t = (if t < 0 then 0 else if t > 1 then 1 else t)"

definition pointOnLine :: "coord \<Rightarrow> coord \<Rightarrow> real \<Rightarrow> coord" where
  "pointOnLine a b t = (fst a + t * (fst b - fst a), snd a + t * (snd b - snd a))"

definition clampedProjectionDistance :: "coord \<Rightarrow> coord \<Rightarrow> coord \<Rightarrow> real" where
  "clampedProjectionDistance p a b =
     (if a = b then euclideanDistance p a
      else euclideanDistance p (pointOnLine a b (clampUnit (projectionParameter p a b))))"

section \<open>Concrete inputs\<close>

text \<open>
  The scenario of the specification: a point feature at the origin and a line feature
  from \<open>(10, 0)\<close> to \<open>(10, 10)\<close>; further a feature without geometry and a
  triangular polygon. No polygon is queried in the examples, so the containment test
  used there is the one that never holds.
\<close>

definition neverInside :: containment where
  "neverInside rings c = False"

definition pointFeature :: Feature where
  "pointFeature = \<lparr>fid = 1, getGeometry = Some (Point (0, 0))\<rparr>"

definition lineFeature :: Feature where
  "lineFeature = \<lparr>fid = 2, getGeometry = Some (LineString [(10, 0), (10, 10)])\<rparr>"

definition brokenFeature :: Feature where
  "brokenFeature = \<lparr>fid = 3, getGeometry = None\<rparr>"

definition triangleFeature :: Feature where
  "triangleFeature =
     \<lparr>fid = 4, getGeometry = Some (Polygon [[(0, 0), (4, 0), (0, 3), (0, 0)]])\<rparr>"


definition scenario :: detector where
  "scenario = state (newDetector [pointFeature, lineFeature])"

definition triangleDetector :: detector where
  "triangleDetector = state (newDetector [triangleFeature])"





text \<open>
  For the debounced calls: a map whose pixels are coordinates at resolution 1, the
  options of a hover query (tolerance 1, delay 50, key \<open>hover\<close>), a world with the
  scenario's detector and nothing pending, four calls at intervals shorter than the
  delay followed by a fifth, and a callback that queries again with its own key.
\<close>

definition unitView :: MapView where
  "unitView = \<lparr>getCoordinateFromPixel = id, getResolution = 1\<rparr>"

definition hoverOptions :: DetectOptions where
  "hoverOptions = \<lparr>hitTolerance = Some 1, debounceDelay = Some 50, debounceKey = Some ''hover''\<rparr>"

definition startWorld :: world where
  "startWorld = \<lparr>clock = 0, pending = [], nextHandle = 1, det = scenario,
                  maps = (\<lambda>r. unitView), delivered = []\<rparr>"

definition nearPixel :: pixel where
  "nearPixel = (0, 0.5)"

definition repeating :: callback where
  "repeating = NotifyThenDetect 1 0 nearPixel (Notify 2) hoverOptions"



definition afterFirstFire :: world where
  "afterFirstFire =
     advance neverInside 50
       (detectFeaturesAtPixelDebounced 0 nearPixel repeating hoverOptions startWorld)"

definition afterClear :: world where
  "afterClear = clearDebounceTimers afterFirstFire"

section \<open>Properties\<close>

subsection \<open>Index construction\<close>

lemma indexFeatures_missing:
  "\<exists>f \<in> set fs. getGeometry f = None \<Longrightarrow> indexFeatures fs acc = Inl InvalidGeometry"
  by (induction fs arbitrary: acc) (auto split: option.splits)

lemma indexFeatures_complete:
  "\<forall>f \<in> set fs. getGeometry f \<noteq> None \<Longrightarrow>
   indexFeatures fs acc = Inr (acc @ concat (map (\<lambda>f. indexGeometry f (the (getGeometry f))) fs))"
  by (induction fs arbitrary: acc) (auto split: option.splits)

lemma detect_empty_tree:
  "tree d = [] \<Longrightarrow> detectFeaturesAtCoordinate inside d c t = []"
  by (simp add: detectFeaturesAtCoordinate_def sortedHits_def rb_search_def scanCandidates_def)

lemma updateFeatures_Returned:
  assumes "updateFeatures fs d = Returned d'"
  shows "(\<forall>f \<in> set fs. getGeometry f \<noteq> None)
       \<and> d' = d\<lparr>features := fs,
                tree := concat (map (\<lambda>f. indexGeometry f (the (getGeometry f))) fs)\<rparr>"
proof (cases "\<exists>f \<in> set fs. getGeometry f = None")
  case True
  from indexFeatures_missing[OF this, of "[]"] assms show ?thesis
    by (simp add: updateFeatures_def Let_def)
next
  case False
  then have all: "\<forall>f \<in> set fs. getGeometry f \<noteq> None" by simp
  from indexFeatures_complete[OF all, of "[]"] assms all show ?thesis
    by (simp add: updateFeatures_def Let_def rb_load_def rb_clear_def)
qed

lemma feature_extentItem [simp]: "feature (extentItem f e) = f"
  by (cases e) (simp add: extentItem_def)

lemma feature_segmentItem [simp]: "feature (segmentItem f cs i) = f"
  by (simp add: segmentItem_def Let_def split: prod.splits)

lemma isSegment_extentItem [simp]: "\<not> isSegmentItem (extentItem f e)"
  by (cases e) (simp add: extentItem_def isSegmentItem_def)

lemma isSegment_segmentItem [simp]: "isSegmentItem (segmentItem f cs i)"
  by (simp add: segmentItem_def isSegmentItem_def Let_def split: prod.splits)

lemma ends_segmentItem [simp]:
  "segmentStart (segmentItem f cs i) = Some (cs ! i)"
  "segmentEnd (segmentItem f cs i) = Some (cs ! (i + 1))"
  by (simp_all add: segmentItem_def Let_def split: prod.splits)

lemma feature_indexLineString: "it \<in> set (indexLineString f cs) \<Longrightarrow> feature it = f"
  by (auto simp: indexLineString_def split: if_splits)

lemma feature_indexGeometry: "it \<in> set (indexGeometry f g) \<Longrightarrow> feature it = f"
  by (auto simp: indexGeometry_def indexPolygon_def dest: feature_indexLineString
      split: Geometry.splits option.splits if_splits)

lemma filter_indexGeometry:
  "filter (\<lambda>it. feature it = f) (indexGeometry f' g) = (if f' = f then indexGeometry f' g else [])"
  by (auto simp: filter_empty_conv filter_id_conv dest: feature_indexGeometry)

lemma filter_all_geometries:
  "filter (\<lambda>it. feature it = f) (concat (map (\<lambda>f'. indexGeometry f' (G f')) fs))
   = concat (replicate (count_list fs f) (indexGeometry f (G f)))"
  by (induction fs) (simp_all add: filter_indexGeometry)

lemma contributions_after_update:
  assumes "updateFeatures fs d = Returned d'" and "f \<in> set fs"
  shows "\<exists>g n. getGeometry f = Some g \<and> count_list fs f = Suc n
           \<and> contributions f d' = concat (replicate (Suc n) (indexGeometry f g))"
proof -
  from updateFeatures_Returned[OF assms(1)] assms(2)
  obtain g where g: "getGeometry f = Some g"
    and d': "d' = d\<lparr>features := fs,
                  tree := concat (map (\<lambda>f. indexGeometry f (the (getGeometry f))) fs)\<rparr>"
    by auto
  have c: "contributions f d' = concat (replicate (count_list fs f) (indexGeometry f g))"
    using g by (simp add: contributions_def d' filter_all_geometries)
  have "count_list fs f \<noteq> 0"
    using assms(2) by (simp add: count_list_0_iff)
  then obtain n where n: "count_list fs f = Suc n"
    by (cases "count_list fs f") auto
  from g c n show ?thesis by simp
qed

lemma segmentItems_lineString:
  "segmentItems (indexLineString f cs) =
     (if length cs \<le> 2 then [] else map (segmentItem f cs) [0 ..< length cs - 1])"
  by (simp add: segmentItems_def indexLineString_def filter_id_conv)

lemma extentItems_lineString:
  "extentItems (indexLineString f cs) = [extentItem f (extentOfCoordinates cs)]"
  by (simp add: extentItems_def indexLineString_def filter_empty_conv)

lemma segmentItems_polygon:
  "segmentItems (indexPolygon f (ring # rings)) =
     (if length ring \<le> 2 then [] else map (segmentItem f ring) [0 ..< length ring - 1])"
proof -
  have "segmentItems (xs @ [extentItem f e]) = segmentItems xs" for xs e
    by (simp add: segmentItems_def)
  then show ?thesis
    by (simp add: indexPolygon_def segmentItems_lineString)
qed

lemma extentItems_polygon:
  "extentItems (indexPolygon f (ring # rings)) =
     [extentItem f (extentOfCoordinates ring), extentItem f (getExtent (Polygon (ring # rings)))]"
proof -
  have "extentItems (xs @ [extentItem f e]) = extentItems xs @ [extentItem f e]" for xs e
    by (simp add: extentItems_def)
  then show ?thesis
    by (simp add: indexPolygon_def extentItems_lineString)
qed

lemma indexGeometry_nonempty: "indexGeometry f g \<noteq> []"
  by (simp add: indexGeometry_def indexPolygon_def indexLineString_def split: Geometry.splits)

subsection \<open>The concrete detectors\<close>

lemma scenario_tree:
  "scenario = \<lparr>tree = [extentItem pointFeature (Finite 0, Finite 0, Finite 0, Finite 0),
                        extentItem lineFeature (Finite 10, Finite 0, Finite 10, Finite 10)],
               features = [pointFeature, lineFeature], debounceTimers = []\<rparr>"
  by (simp add: scenario_def newDetector_def emptyDetector_def updateFeatures_def Let_def
      rb_clear_def rb_load_def pointFeature_def lineFeature_def indexGeometry_def
      indexLineString_def extentOfCoordinates_def emptyExtent_def)

lemma scenario_built:
  "updateFeatures [pointFeature, lineFeature] emptyDetector = Returned scenario"
  by (simp add: scenario_def newDetector_def emptyDetector_def updateFeatures_def Let_def
      pointFeature_def lineFeature_def)

lemmas eval_defs =
  detectFeaturesAtCoordinate_def sortedHits_def rb_search_def intersects_def queryBox_def
  scanCandidates_def scanStep_def candidateDistance_def extentItem_def getDistanceToPoint_def
  getDistanceToLineString_def getDistanceToSegment_def Let_def

lemma sqrt_quarter: "sqrt (1 / 4) = 1 / 2"
  by (rule real_sqrt_unique) (simp_all add: power2_eq_square)

lemma sqrt_25: "sqrt 25 = 5"
  by (rule real_sqrt_unique) simp_all

subsection \<open>A failed rebuild\<close>

text \<open>
  Claim C1, as stated, asks that a call of \<open>updateFeatures\<close> which meets a feature
  without geometry leaves the index and the tracked features as they were, so that
  later queries answer as before. The code replaces the tracked features and clears
  the index before it looks at any geometry. Counterexample: on the detector of the
  scenario, a rebuild with a feature that has no geometry throws, and afterwards the
  index and the tracked features differ from before; the query at the origin with
  tolerance 0, which returned the point feature, returns nothing.
\<close>

theorem updateFeatures_failure_loses_index:
  "updateFeatures [brokenFeature] scenario =
     Threw InvalidGeometry (scenario\<lparr>features := [brokenFeature], tree := []\<rparr>)
   \<and> tree (state (updateFeatures [brokenFeature] scenario)) \<noteq> tree scenario
   \<and> features (state (updateFeatures [brokenFeature] scenario)) \<noteq> features scenario
   \<and> detectFeaturesAtCoordinate neverInside scenario (0, 0) 0 = [pointFeature]
   \<and> detectFeaturesAtCoordinate neverInside
        (state (updateFeatures [brokenFeature] scenario)) (0, 0) 0 = []"
  by (simp add: scenario_tree updateFeatures_def brokenFeature_def rb_clear_def eval_defs
       pointFeature_def lineFeature_def)

text \<open>
  Claim C1, amended: if some feature of the sequence has no geometry, \<open>updateFeatures\<close>
  throws \<open>InvalidGeometry\<close> synchronously and commits no item of the new sequence; it
  leaves the index empty and the tracked features replaced by the new sequence (the
  debounce timers are untouched), so every later query, at any coordinate and
  tolerance, returns the empty sequence.
\<close>

theorem updateFeatures_missing_geometry:
  assumes "\<exists>f \<in> set fs. getGeometry f = None"
  shows "updateFeatures fs d = Threw InvalidGeometry (d\<lparr>features := fs, tree := []\<rparr>)
       \<and> detectFeaturesAtCoordinate inside (state (updateFeatures fs d)) c t = []"
  using indexFeatures_missing[OF assms, of "[]"]
  by (simp add: updateFeatures_def Let_def rb_clear_def detect_empty_tree)

text \<open>Witness for claim C1 (amended): the rebuild of the scenario's detector with the
  point feature followed by the feature without geometry.\<close>

theorem updateFeatures_missing_geometry_witness:
  "getGeometry brokenFeature = None
   \<and> updateFeatures [pointFeature, brokenFeature] scenario =
       Threw InvalidGeometry (scenario\<lparr>features := [pointFeature, brokenFeature], tree := []\<rparr>)
   \<and> detectFeaturesAtCoordinate neverInside
       (state (updateFeatures [pointFeature, brokenFeature] scenario)) (0, 0) 0 = []"
proof -
  have g: "getGeometry brokenFeature = None"
    by (simp add: brokenFeature_def)
  then have h: "\<exists>f \<in> set [pointFeature, brokenFeature]. getGeometry f = None"
    by simp
  from g updateFeatures_missing_geometry[OF h, of scenario neverInside "(0, 0)" 0]
  show ?thesis by blast
qed

subsection \<open>What each feature contributes\<close>

text \<open>
  Claim C2, as stated, gives a polygon whose exterior ring has more than two
  coordinates one segment item per consecutive pair plus one whole-extent item.
  \<open>indexPolygon\<close> adds the polygon's extent after the items of the ring, and the
  ring's items already end with the ring's extent. Counterexample: the triangle, whose
  ring has four coordinates, contributes three segment items and two whole-extent
  items.
\<close>

theorem polygon_contributes_two_extents:
  "getGeometry triangleFeature = Some (Polygon [[(0, 0), (4, 0), (0, 3), (0, 0)]])
   \<and> length (segmentItems (contributions triangleFeature triangleDetector)) = 3
   \<and> length (extentItems (contributions triangleFeature triangleDetector)) = 2
   \<and> length (contributions triangleFeature triangleDetector) = 5"
  by (simp add: triangleDetector_def newDetector_def emptyDetector_def updateFeatures_def
      Let_def rb_clear_def rb_load_def triangleFeature_def indexGeometry_def indexPolygon_def
      indexLineString_def contributions_def segmentItems_def extentItems_def upt_rec
      numeral_2_eq_2 numeral_3_eq_3)

text \<open>
  Claim C2, amended: after a successful \<open>updateFeatures\<close>, every feature of the
  sequence has a geometry and contributes at least one index item, namely the items
  of its geometry once per occurrence in the sequence. A line string with more than
  two coordinates yields one segment item per consecutive coordinate pair plus one
  whole-extent item, a line string with at most two coordinates only the whole-extent
  item. A polygon with an exterior ring yields the segment items of the ring (one per
  consecutive pair if the ring has more than two coordinates, none otherwise) plus
  two whole-extent items, the ring's extent and the polygon's extent. Every other
  geometry yields its whole-extent item only.
\<close>

theorem updateFeatures_contributions:
  assumes "updateFeatures fs d = Returned d'" and "f \<in> set fs"
  shows "\<exists>g. getGeometry f = Some g
      \<and> contributions f d' = concat (replicate (count_list fs f) (indexGeometry f g))
      \<and> length (contributions f d') \<ge> 1
      \<and> (\<forall>coords. g = LineString coords \<longrightarrow>
           segmentItems (indexGeometry f g) =
             (if length coords > 2 then map (segmentItem f coords) [0 ..< length coords - 1] else [])
           \<and> extentItems (indexGeometry f g) = [extentItem f (getExtent g)])
      \<and> (\<forall>ring rings. g = Polygon (ring # rings) \<longrightarrow>
           segmentItems (indexGeometry f g) =
             (if length ring > 2 then map (segmentItem f ring) [0 ..< length ring - 1] else [])
           \<and> extentItems (indexGeometry f g) =
               [extentItem f (extentOfCoordinates ring), extentItem f (getExtent g)])
      \<and> ((\<forall>coords. g \<noteq> LineString coords) \<and> (\<forall>ring rings. g \<noteq> Polygon (ring # rings)) \<longrightarrow>
           indexGeometry f g = [extentItem f (getExtent g)])"
proof -
  from contributions_after_update[OF assms]
  obtain g n where g: "getGeometry f = Some g" and n: "count_list fs f = Suc n"
    and c': "contributions f d' = concat (replicate (Suc n) (indexGeometry f g))"
    by blast
  have c: "contributions f d' = concat (replicate (count_list fs f) (indexGeometry f g))"
    using c' n by simp
  have l: "length (contributions f d') \<ge> 1"
    using indexGeometry_nonempty[of f g] by (cases "indexGeometry f g") (simp_all add: c')
  have line: "\<forall>coords. g = LineString coords \<longrightarrow>
           segmentItems (indexGeometry f g) =
             (if length coords > 2 then map (segmentItem f coords) [0 ..< length coords - 1] else [])
           \<and> extentItems (indexGeometry f g) = [extentItem f (getExtent g)]"
    by (auto simp: indexGeometry_def segmentItems_lineString extentItems_lineString)
  have poly: "\<forall>ring rings. g = Polygon (ring # rings) \<longrightarrow>
           segmentItems (indexGeometry f g) =
             (if length ring > 2 then map (segmentItem f ring) [0 ..< length ring - 1] else [])
           \<and> extentItems (indexGeometry f g) =
               [extentItem f (extentOfCoordinates ring), extentItem f (getExtent g)]"
    by (auto simp: indexGeometry_def segmentItems_polygon extentItems_polygon)
  have rest: "(\<forall>coords. g \<noteq> LineString coords) \<and> (\<forall>ring rings. g \<noteq> Polygon (ring # rings)) \<longrightarrow>
           indexGeometry f g = [extentItem f (getExtent g)]"
    by (cases g) (auto simp: indexGeometry_def indexPolygon_def neq_Nil_conv)
  from g c l line poly rest show ?thesis by blast
qed

text \<open>Witness for claim C2 (amended): the line feature of the scenario, whose two
  coordinates give one whole-extent item and no segment item.\<close>

theorem updateFeatures_contributions_witness:
  "updateFeatures [pointFeature, lineFeature] emptyDetector = Returned scenario
   \<and> lineFeature \<in> set [pointFeature, lineFeature]
   \<and> getGeometry lineFeature = Some (LineString [(10, 0), (10, 10)])
   \<and> length (contributions lineFeature scenario) \<ge> 1
   \<and> segmentItems (indexGeometry lineFeature (LineString [(10, 0), (10, 10)])) = []
   \<and> extentItems (indexGeometry lineFeature (LineString [(10, 0), (10, 10)])) =
       [extentItem lineFeature (getExtent (LineString [(10, 0), (10, 10)]))]"
proof -
  have m: "lineFeature \<in> set [pointFeature, lineFeature]" by simp
  have g: "getGeometry lineFeature = Some (LineString [(10, 0), (10, 10)])"
    by (simp add: lineFeature_def)
  from updateFeatures_contributions[OF scenario_built m] g scenario_built m
  show ?thesis by auto
qed

subsection \<open>The scan over the candidates\<close>

lemma scanStep_seen:
  "fst (scanStep inside p t (seen, hits) c) =
     (if candidateDistance inside p c \<le> Finite t then insert (feature c) seen else seen)"
  by (auto simp: scanStep_def Let_def)

lemma scan_seen:
  "fst (foldl (scanStep inside p t) (seen, hits) cs) =
     seen \<union> {feature c | c. c \<in> set cs \<and> candidateDistance inside p c \<le> Finite t}"
proof (induction cs arbitrary: seen hits)
  case Nil
  show ?case by simp
next
  case (Cons c cs)
  obtain seen' hits' where step: "scanStep inside p t (seen, hits) c = (seen', hits')"
    by (cases "scanStep inside p t (seen, hits) c")
  have seen': "seen' = (if candidateDistance inside p c \<le> Finite t then insert (feature c) seen else seen)"
    using scanStep_seen[of inside p t seen hits c] step by simp
  show ?case
    using Cons.IH[of seen' hits'] by (auto simp: step seen')
qed

lemma scan_tracks:
  "seen = hitFeature ` set hits \<Longrightarrow> distinct (map hitFeature hits) \<Longrightarrow>
   fst (foldl (scanStep inside p t) (seen, hits) cs)
     = hitFeature ` set (snd (foldl (scanStep inside p t) (seen, hits) cs))
   \<and> distinct (map hitFeature (snd (foldl (scanStep inside p t) (seen, hits) cs)))"
proof (induction cs arbitrary: seen hits)
  case Nil
  then show ?case by simp
next
  case (Cons c cs)
  obtain seen' hits' where step: "scanStep inside p t (seen, hits) c = (seen', hits')"
    by (cases "scanStep inside p t (seen, hits) c")
  have "seen' = hitFeature ` set hits' \<and> distinct (map hitFeature hits')"
    using step Cons.prems by (auto simp: scanStep_def Let_def split: if_splits)
  then show ?case
    using Cons.IH[of seen' hits'] by (simp add: step)
qed

lemma scan_origin:
  "h \<in> set (snd (foldl (scanStep inside p t) (seen, hits) cs)) \<Longrightarrow>
   h \<in> set hits \<or>
   (\<exists>c \<in> set cs. hitFeature h = feature c \<and> distance h = candidateDistance inside p c
        \<and> distance h \<le> Finite t)"
proof (induction cs arbitrary: seen hits)
  case Nil
  then show ?case by simp
next
  case (Cons c cs)
  obtain seen' hits' where step: "scanStep inside p t (seen, hits) c = (seen', hits')"
    by (cases "scanStep inside p t (seen, hits) c")
  from Cons.prems have "h \<in> set (snd (foldl (scanStep inside p t) (seen', hits') cs))"
    by (simp add: step)
  from Cons.IH[OF this] show ?case
  proof
    assume "h \<in> set hits'"
    then show ?thesis
      using step by (auto simp: scanStep_def Let_def split: if_splits)
  next
    assume "\<exists>c \<in> set cs. hitFeature h = feature c \<and> distance h = candidateDistance inside p c
        \<and> distance h \<le> Finite t"
    then show ?thesis by auto
  qed
qed

lemma sortedHits_origin:
  assumes "h \<in> set (sortedHits inside d p t)"
  shows "\<exists>c \<in> set (rb_search (queryBox p t) (tree d)).
          feature c = hitFeature h \<and> distance h = candidateDistance inside p c
          \<and> distance h \<le> Finite t"
proof -
  from assms have "h \<in> set (snd (foldl (scanStep inside p t) ({}, [])
                 (rb_search (queryBox p t) (tree d))))"
    by (simp add: sortedHits_def scanCandidates_def)
  from scan_origin[OF this] show ?thesis by auto
qed


lemma detect_set:
  "set (detectFeaturesAtCoordinate inside d p t) =
     {feature c | c. c \<in> set (tree d) \<and> intersects (queryBox p t) c
                     \<and> candidateDistance inside p c \<le> Finite t}"
proof -
  let ?cs = "rb_search (queryBox p t) (tree d)"
  have "set (detectFeaturesAtCoordinate inside d p t)
      = hitFeature ` set (snd (foldl (scanStep inside p t) ({}, []) ?cs))"
    by (simp add: detectFeaturesAtCoordinate_def sortedHits_def scanCandidates_def)
  also have "\<dots> = fst (foldl (scanStep inside p t) ({}, []) ?cs)"
    using scan_tracks[of "{}" "[]" inside p t ?cs] by simp
  also have "\<dots> = {feature c | c. c \<in> set ?cs \<and> candidateDistance inside p c \<le> Finite t}"
    by (simp add: scan_seen)
  finally show ?thesis by (auto simp: rb_search_def)
qed

subsection \<open>The scenario of the specification\<close>

text \<open>
  Claim C3: with the point feature at \<open>(0, 0)\<close> and the line feature from \<open>(10, 0)\<close>
  to \<open>(10, 10)\<close> indexed, the query at \<open>(0, 0.5)\<close> with tolerance 1 returns exactly
  the point feature, at distance 0.5; the query at \<open>(10, 5)\<close> with tolerance 0.5 returns
  exactly the line feature, at distance 0; the query at \<open>(5, 5)\<close> with tolerance 1
  returns the empty sequence.
\<close>

theorem scenario_queries:
  "detectFeaturesAtCoordinate neverInside scenario (0, 0.5) 1 = [pointFeature]
   \<and> sortedHits neverInside scenario (0, 0.5) 1
       = [\<lparr>hitFeature = pointFeature, distance = Finite 0.5\<rparr>]
   \<and> detectFeaturesAtCoordinate neverInside scenario (10, 5) 0.5 = [lineFeature]
   \<and> sortedHits neverInside scenario (10, 5) 0.5
       = [\<lparr>hitFeature = lineFeature, distance = Finite 0\<rparr>]
   \<and> detectFeaturesAtCoordinate neverInside scenario (5, 5) 1 = []"
  by (simp add: scenario_tree eval_defs pointFeature_def lineFeature_def sqrt_quarter)

subsection \<open>Point features and the tolerance\<close>

lemma extent_single:
  "extentOfCoordinates [(x, y)] = (Finite x, Finite y, Finite x, Finite y)"
  by (simp add: extentOfCoordinates_def emptyExtent_def min_def max_def)

lemma point_items:
  assumes "updateFeatures fs d = Returned d'" and "f \<in> set fs"
    and "getGeometry f = Some (Point (cx, cy))"
  shows "{c \<in> set (tree d'). feature c = f}
         = {extentItem f (Finite cx, Finite cy, Finite cx, Finite cy)}"
proof -
  from contributions_after_update[OF assms(1,2)] assms(3)
  obtain n where "contributions f d' =
      concat (replicate (Suc n) (indexGeometry f (Point (cx, cy))))"
    by auto
  then have "set (contributions f d') = {extentItem f (Finite cx, Finite cy, Finite cx, Finite cy)}"
    by (auto simp: indexGeometry_def extent_single)
  then show ?thesis
    by (auto simp: contributions_def)
qed

lemma point_item_intersects:
  "intersects (queryBox (px, py) t) (extentItem f (Finite cx, Finite cy, Finite cx, Finite cy))
   \<longleftrightarrow> \<bar>px - cx\<bar> \<le> t \<and> \<bar>py - cy\<bar> \<le> t"
  by (auto simp: intersects_def queryBox_def extentItem_def)

lemma point_item_distance:
  "getGeometry f = Some (Point (cx, cy)) \<Longrightarrow>
   candidateDistance inside (px, py) (extentItem f (Finite cx, Finite cy, Finite cx, Finite cy))
     = Finite (sqrt ((px - cx)\<^sup>2 + (py - cy)\<^sup>2))"
  by (simp add: candidateDistance_def extentItem_def getDistanceToPoint_def power2_eq_square
      Let_def)

lemma sqrt_sum_bound:
  assumes "sqrt (a\<^sup>2 + b\<^sup>2) \<le> t"
  shows "\<bar>a\<bar> \<le> t \<and> \<bar>b\<bar> \<le> t"
proof -
  have "\<bar>a\<bar> \<le> sqrt (a\<^sup>2 + b\<^sup>2)" by simp
  moreover have "\<bar>b\<bar> \<le> sqrt (a\<^sup>2 + b\<^sup>2)" by simp
  ultimately show ?thesis using assms by linarith
qed

text \<open>
  Claim C4: for a detector that indexes a point feature at \<open>C = (cx, cy)\<close>, the result
  of a query at \<open>P = (px, py)\<close> with tolerance \<open>t\<close> includes the feature if and only if
  the Euclidean distance from \<open>P\<close> to \<open>C\<close> is at most \<open>t\<close> (so a query at distance
  exactly \<open>t\<close> includes it and any larger distance excludes it); the query at \<open>C\<close> with
  tolerance 0 returns the feature with distance exactly 0. The equivalence holds for
  every tolerance, in particular for every non-negative one.
\<close>

theorem point_feature_tolerance:
  assumes "updateFeatures fs d = Returned d'" and "f \<in> set fs"
    and "getGeometry f = Some (Point (cx, cy))"
  shows "(f \<in> set (detectFeaturesAtCoordinate inside d' (px, py) t)
           \<longleftrightarrow> sqrt ((px - cx)\<^sup>2 + (py - cy)\<^sup>2) \<le> t)
       \<and> f \<in> set (detectFeaturesAtCoordinate inside d' (cx, cy) 0)
       \<and> \<lparr>hitFeature = f, distance = Finite 0\<rparr> \<in> set (sortedHits inside d' (cx, cy) 0)"
proof -
  let ?it = "extentItem f (Finite cx, Finite cy, Finite cx, Finite cy)"
  note items = point_items[OF assms]
  have mem: "f \<in> set (detectFeaturesAtCoordinate inside d' (qx, qy) s)
       \<longleftrightarrow> sqrt ((qx - cx)\<^sup>2 + (qy - cy)\<^sup>2) \<le> s" for qx qy s
  proof -
    have "f \<in> set (detectFeaturesAtCoordinate inside d' (qx, qy) s)
        \<longleftrightarrow> (\<exists>c \<in> {c \<in> set (tree d'). feature c = f}.
              intersects (queryBox (qx, qy) s) c \<and> candidateDistance inside (qx, qy) c \<le> Finite s)"
      by (auto simp: detect_set)
    also have "\<dots> \<longleftrightarrow> intersects (queryBox (qx, qy) s) ?it
                     \<and> candidateDistance inside (qx, qy) ?it \<le> Finite s"
      by (simp add: items)
    also have "\<dots> \<longleftrightarrow> sqrt ((qx - cx)\<^sup>2 + (qy - cy)\<^sup>2) \<le> s"
      using sqrt_sum_bound[of "qx - cx" "qy - cy" s]
      by (auto simp: point_item_intersects point_item_distance[OF assms(3)])
    finally show ?thesis .
  qed
  have here: "f \<in> set (detectFeaturesAtCoordinate inside d' (cx, cy) 0)"
    by (simp add: mem)
  then obtain h where h: "h \<in> set (sortedHits inside d' (cx, cy) 0)" "hitFeature h = f"
    by (auto simp: detectFeaturesAtCoordinate_def)
  from sortedHits_origin[OF h(1)]
  obtain c where c: "c \<in> set (tree d')" "feature c = hitFeature h"
      "distance h = candidateDistance inside (cx, cy) c"
    by (auto simp: rb_search_def)
  from c(1,2) h(2) items have "c = ?it" by auto
  then have "distance h = Finite 0"
    using c(3) point_item_distance[OF assms(3), of inside cx cy] by simp
  with h(2) have "h = \<lparr>hitFeature = f, distance = Finite 0\<rparr>" by simp
  with h(1) mem here show ?thesis by simp
qed

text \<open>Witness for claim C4: the point feature of the scenario is returned by the
  query at \<open>(3, 4)\<close>, which is at distance 5, with tolerance 5, and not with tolerance
  4.9; the query at the point itself with tolerance 0 returns it at distance 0.\<close>

theorem point_feature_tolerance_witness:
  "updateFeatures [pointFeature, lineFeature] emptyDetector = Returned scenario
   \<and> pointFeature \<in> set [pointFeature, lineFeature]
   \<and> getGeometry pointFeature = Some (Point (0, 0))
   \<and> pointFeature \<in> set (detectFeaturesAtCoordinate neverInside scenario (3, 4) 5)
   \<and> pointFeature \<notin> set (detectFeaturesAtCoordinate neverInside scenario (3, 4) 4.9)
   \<and> \<lparr>hitFeature = pointFeature, distance = Finite 0\<rparr>
        \<in> set (sortedHits neverInside scenario (0, 0) 0)"
proof -
  have m: "pointFeature \<in> set [pointFeature, lineFeature]" by simp
  have g: "getGeometry pointFeature = Some (Point (0, 0))"
    by (simp add: pointFeature_def)
  note t = point_feature_tolerance[OF scenario_built m g, of neverInside]
  have "pointFeature \<in> set (detectFeaturesAtCoordinate neverInside scenario (3, 4) 5)"
    using t[of 3 4 5] by (simp add: sqrt_25)
  moreover have "pointFeature \<notin> set (detectFeaturesAtCoordinate neverInside scenario (3, 4) 4.9)"
    using t[of 3 4 "4.9"] by (simp add: sqrt_25)
  moreover have "\<lparr>hitFeature = pointFeature, distance = Finite 0\<rparr>
        \<in> set (sortedHits neverInside scenario (0, 0) 0)"
    using t[of 0 0 0] by simp
  ultimately show ?thesis using scenario_built m g by simp
qed

subsection \<open>Deduplication and order\<close>

text \<open>
  Claim C5: whatever the index holds, and for every query coordinate and tolerance,
  the sequence returned by \<open>detectFeaturesAtCoordinate\<close> contains each feature at most
  once, however many items of that feature are among the candidates.
\<close>

theorem detect_distinct: "distinct (detectFeaturesAtCoordinate inside d p t)"
proof -
  let ?hits = "snd (scanCandidates inside p t (rb_search (queryBox p t) (tree d)))"
  have "distinct (map hitFeature ?hits)"
    using scan_tracks[of "{}" "[]" inside p t] by (simp add: scanCandidates_def)
  then have "distinct (map hitFeature (sort_key distance ?hits))"
    by (simp add: distinct_map)
  then show ?thesis
    by (simp add: detectFeaturesAtCoordinate_def sortedHits_def)
qed








subsection \<open>The distance to a segment\<close>

lemma clampUnit_max_min: "max 0 (min 1 t) = clampUnit t"
  by (simp add: clampUnit_def max_def min_def)

text \<open>
  Claim C7: for all endpoints \<open>a\<close>, \<open>b\<close> and every query point \<open>p\<close>, the
  point-to-segment distance of the detector is the Euclidean distance from \<open>p\<close> to the
  projection of \<open>p\<close> onto the line through \<open>a\<close> and \<open>b\<close> with the projection parameter
  clamped to the unit interval; for the degenerate segment it is the Euclidean
  distance from \<open>p\<close> to \<open>a\<close>.
\<close>

theorem getDistanceToSegment_clamped_projection:
  "getDistanceToSegment p a b = clampedProjectionDistance p a b
   \<and> getDistanceToSegment p a a = euclideanDistance p a"
proof -
  have deg: "getDistanceToSegment p a a = euclideanDistance p a"
    by (simp add: getDistanceToSegment_def euclideanDistance_def power2_eq_square Let_def)
  have "getDistanceToSegment p a b = clampedProjectionDistance p a b"
  proof (cases "a = b")
    case True
    then show ?thesis using deg by (simp add: clampedProjectionDistance_def)
  next
    case False
    then have nz: "\<not> (fst b - fst a = 0 \<and> snd b - snd a = 0)"
      by (auto simp: prod_eq_iff)
    show ?thesis
      using False nz
      by (simp add: getDistanceToSegment_def clampedProjectionDistance_def Let_def
          clampUnit_max_min euclideanDistance_def pointOnLine_def projectionParameter_def
          power2_eq_square)
  qed
  with deg show ?thesis by simp
qed

text \<open>
  The clamped projection is the nearest point of the segment: no point
  \<open>pointOnLine a b s\<close> with \<open>s\<close> in the unit interval is closer to \<open>p\<close> than the
  detector's distance.
\<close>

lemma squared_gap:
  fixes ex ey dx dy s t u L :: real
  assumes L: "L = dx * dx + dy * dy" and u: "u * L = ex * dx + ey * dy"
  shows "((ex - s * dx)\<^sup>2 + (ey - s * dy)\<^sup>2) - ((ex - t * dx)\<^sup>2 + (ey - t * dy)\<^sup>2)
         = L * ((s - t) * (s + t - 2 * u))"
proof -
  have "((ex - s * dx)\<^sup>2 + (ey - s * dy)\<^sup>2) - ((ex - t * dx)\<^sup>2 + (ey - t * dy)\<^sup>2)
      = (s\<^sup>2 - t\<^sup>2) * L - 2 * (s - t) * (ex * dx + ey * dy)"
    unfolding L by (simp add: power2_eq_square algebra_simps)
  also have "\<dots> = (s\<^sup>2 - t\<^sup>2) * L - 2 * (s - t) * (u * L)"
    by (simp only: u)
  also have "\<dots> = L * ((s - t) * (s + t - 2 * u))"
    by (simp add: power2_eq_square algebra_simps)
  finally show ?thesis .
qed

lemma clamp_gap_nonneg:
  fixes s u :: real
  assumes "0 \<le> s" and "s \<le> 1"
  shows "0 \<le> (s - clampUnit u) * (s + clampUnit u - 2 * u)"
proof -
  consider "u < 0" | "1 < u" | "0 \<le> u \<and> u \<le> 1" by linarith
  then show ?thesis
  proof cases
    case 1
    then have "clampUnit u = 0" by (simp add: clampUnit_def)
    moreover have "0 \<le> s * (s - 2 * u)"
      using assms 1 by (intro mult_nonneg_nonneg) simp_all
    ultimately show ?thesis by simp
  next
    case 2
    then have c: "clampUnit u = 1" by (simp add: clampUnit_def)
    have "0 \<le> (s - 1) * (s + 1 - 2 * u)"
      using assms 2 by (intro mult_nonpos_nonpos) simp_all
    then show ?thesis by (simp add: c)
  next
    case 3
    then have c: "clampUnit u = u" by (simp add: clampUnit_def)
    have "(s - u) * (s + u - 2 * u) = (s - u)\<^sup>2"
      by (simp add: power2_eq_square algebra_simps)
    then show ?thesis by (simp add: c)
  qed
qed

lemma getDistanceToSegment_least:
  assumes "0 \<le> s" and "s \<le> 1"
  shows "getDistanceToSegment p a b \<le> euclideanDistance p (pointOnLine a b s)"
proof (cases "a = b")
  case True
  then show ?thesis
    by (simp add: getDistanceToSegment_def euclideanDistance_def pointOnLine_def Let_def
        power2_eq_square)
next
  case False
  define dx dy ex ey where defs: "dx = fst b - fst a" "dy = snd b - snd a"
    "ex = fst p - fst a" "ey = snd p - snd a"
  define L where "L = dx * dx + dy * dy"
  define u where "u = (ex * dx + ey * dy) / L"
  have nz: "\<not> (dx = 0 \<and> dy = 0)"
    using False by (auto simp: defs prod_eq_iff)
  then have Lpos: "0 < L"
    unfolding L_def by (simp add: sum_squares_gt_zero_iff)
  have uL: "u * L = ex * dx + ey * dy"
    using Lpos by (simp add: u_def)
  have code0: "getDistanceToSegment p a b =
      sqrt ((fst p - (fst a + clampUnit u * dx)) * (fst p - (fst a + clampUnit u * dx))
          + (snd p - (snd a + clampUnit u * dy)) * (snd p - (snd a + clampUnit u * dy)))"
    using nz unfolding defs u_def L_def
    by (simp add: getDistanceToSegment_def Let_def clampUnit_max_min)
  have shift: "x - (y + t * d) = (x - y) - t * d" for x y t d :: real
    by simp
  have code: "getDistanceToSegment p a b =
      sqrt ((ex - clampUnit u * dx)\<^sup>2 + (ey - clampUnit u * dy)\<^sup>2)"
    unfolding code0 shift power2_eq_square defs(3,4) ..
  have other: "euclideanDistance p (pointOnLine a b s) =
      sqrt ((ex - s * dx)\<^sup>2 + (ey - s * dy)\<^sup>2)"
    unfolding defs euclideanDistance_def pointOnLine_def fst_conv snd_conv shift ..
  have "0 \<le> L * ((s - clampUnit u) * (s + clampUnit u - 2 * u))"
    using Lpos clamp_gap_nonneg[OF assms, of u] by (simp add: zero_le_mult_iff)
  then have "(ex - clampUnit u * dx)\<^sup>2 + (ey - clampUnit u * dy)\<^sup>2
      \<le> (ex - s * dx)\<^sup>2 + (ey - s * dy)\<^sup>2"
    using squared_gap[OF L_def uL, of s "clampUnit u"] by linarith
  then show ?thesis
    unfolding code other by (rule real_sqrt_le_mono)
qed

subsection \<open>Rebuilding twice\<close>

text \<open>
  Claim C8: calling \<open>updateFeatures\<close> twice in succession with the same feature
  sequence ends like a single call and leaves the same detector, so every query, at
  any fixed coordinate and tolerance, returns the same result after the second call
  as after the first.
\<close>

theorem updateFeatures_twice:
  "updateFeatures fs (state (updateFeatures fs d)) = updateFeatures fs d
   \<and> detectFeaturesAtCoordinate inside (state (updateFeatures fs (state (updateFeatures fs d)))) p t
     = detectFeaturesAtCoordinate inside (state (updateFeatures fs d)) p t"
proof -
  have "updateFeatures fs (state (updateFeatures fs d)) = updateFeatures fs d"
    by (cases "indexFeatures fs []") (simp_all add: updateFeatures_def Let_def rb_clear_def rb_load_def)
  then show ?thesis by simp
qed

subsection \<open>Timers\<close>

lemma advance_add:
  "advance inside (a + b) w = advance inside b (advance inside a w)"
  by (induction a arbitrary: w) simp_all

lemma tick_idle:
  "\<forall>tm \<in> set (pending w). clock w < due tm \<Longrightarrow> tick inside w = w"
  by (simp add: tick_def filter_empty_conv not_le)

lemma advance_idle:
  "\<forall>tm \<in> set (pending w). clock w + n < due tm \<Longrightarrow>
   advance inside n w = w\<lparr>clock := clock w + n\<rparr>"
proof (induction n arbitrary: w)
  case 0
  then show ?case by simp
next
  case (Suc n)
  let ?w = "w\<lparr>clock := Suc (clock w)\<rparr>"
  have "tick inside ?w = ?w"
    using Suc.prems by (intro tick_idle) auto
  moreover have "advance inside n ?w = ?w\<lparr>clock := clock ?w + n\<rparr>"
    using Suc.prems by (intro Suc.IH) auto
  ultimately show ?case by simp
qed

lemma advance_quiet:
  "pending w = [] \<Longrightarrow> advance inside n w = w\<lparr>clock := clock w + n\<rparr>"
  by (rule advance_idle) simp


lemma tick_single_notify:
  assumes "pending w = [tm]" and "due tm \<le> clock w" and "tCallback tm = Notify i"
  shows "tick inside w =
     w\<lparr>pending := [],
       delivered := delivered w @
         [(i, detectFeaturesAtPixel inside (det w) (maps w (tMap tm)) (tPixel tm) (tOptions tm))],
       det := (det w)\<lparr>debounceTimers := AList.delete (tKey tm) (debounceTimers (det w))\<rparr>\<rparr>"
  using assms
  by (simp add: tick_def fireHandle_def fire_def Let_def clearTimeout_def setDebounceTimers_def)

lemma detectFeaturesAtPixel_tree:
  "tree d = tree d' \<Longrightarrow>
   detectFeaturesAtPixel inside d m px options = detectFeaturesAtPixel inside d' m px options"
  by (simp add: detectFeaturesAtPixel_def detectFeaturesAtCoordinate_def sortedHits_def Let_def)

text \<open>One pending timer with a notifying callback: it fires once when due.\<close>

lemma advance_single_notify:
  assumes "pending w = [tm]" and "clock w < due tm" and "tCallback tm = Notify i"
    and "due tm \<le> clock w + n"
  shows "advance inside n w =
     w\<lparr>clock := clock w + n, pending := [],
       delivered := delivered w @
         [(i, detectFeaturesAtPixel inside (det w) (maps w (tMap tm)) (tPixel tm) (tOptions tm))],
       det := (det w)\<lparr>debounceTimers := AList.delete (tKey tm) (debounceTimers (det w))\<rparr>\<rparr>"
proof -
  define a where "a = due tm - Suc (clock w)"
  define b where "b = clock w + n - due tm"
  have a: "due tm = clock w + Suc a"
    using assms(2) by (simp add: a_def)
  have n: "n = a + (1 + b)"
    using assms(2,4) by (simp add: a_def b_def)
  have 1: "advance inside a w = w\<lparr>clock := clock w + a\<rparr>"
    using assms(1) a by (intro advance_idle) simp
  let ?w2 = "w\<lparr>clock := Suc (clock w + a)\<rparr>"
  let ?w3 = "?w2\<lparr>pending := [],
       delivered := delivered w @
         [(i, detectFeaturesAtPixel inside (det w) (maps w (tMap tm)) (tPixel tm) (tOptions tm))],
       det := (det w)\<lparr>debounceTimers := AList.delete (tKey tm) (debounceTimers (det w))\<rparr>\<rparr>"
  have 2: "tick inside ?w2 = ?w3"
    using tick_single_notify[of ?w2 tm i inside] assms(1,3) a by simp
  have "advance inside n w = advance inside b (advance inside 1 (advance inside a w))"
    by (simp only: n advance_add)
  also have "\<dots> = advance inside b ?w3"
    by (simp add: 1 2)
  also have "\<dots> = ?w3\<lparr>clock := clock ?w3 + b\<rparr>"
    by (rule advance_quiet) simp
  finally show ?thesis
    by (simp add: n)
qed




lemma nearPixel_detect:
  "tree d = tree scenario \<Longrightarrow>
   detectFeaturesAtPixel neverInside d unitView nearPixel hoverOptions = [pointFeature]"
  by (simp add: detectFeaturesAtPixel_def unitView_def hoverOptions_def scenario_tree nearPixel_def
      eval_defs pointFeature_def lineFeature_def sqrt_quarter)


subsection \<open>Cancelling the timers\<close>

lemma pending_clear_all:
  "pending (foldl (\<lambda>w' timer. clearTimeout timer w') w hs)
     = filter (\<lambda>tm. handle tm \<notin> set hs) (pending w)"
  by (induction hs arbitrary: w) (auto simp: clearTimeout_def intro: filter_cong)

lemma clear_all_others:
  "clock (foldl (\<lambda>w' timer. clearTimeout timer w') w hs) = clock w
   \<and> delivered (foldl (\<lambda>w' timer. clearTimeout timer w') w hs) = delivered w
   \<and> det (foldl (\<lambda>w' timer. clearTimeout timer w') w hs) = det w"
  by (induction hs arbitrary: w) (simp_all add: clearTimeout_def)

lemma clearDebounceTimers_none:
  "debounceTimers (det w) = [] \<Longrightarrow> clearDebounceTimers w = w"
  by (simp add: clearDebounceTimers_def setDebounceTimers_def)

lemma clearDebounceTimers_empties:
  "debounceTimers (det (clearDebounceTimers w)) = []"
  by (simp add: clearDebounceTimers_def setDebounceTimers_def)

lemma clearDebounceTimers_idem:
  "clearDebounceTimers (clearDebounceTimers w) = clearDebounceTimers w"
  by (rule clearDebounceTimers_none) (rule clearDebounceTimers_empties)

lemma clearDebounceTimers_tracked:
  assumes "\<forall>tm \<in> set (pending w). handle tm \<in> snd ` set (debounceTimers (det w))"
  shows "pending (clearDebounceTimers w) = []
       \<and> delivered (advance inside n (clearDebounceTimers w)) = delivered w"
proof -
  have p: "pending (clearDebounceTimers w) = []"
    using assms
    by (auto simp: clearDebounceTimers_def setDebounceTimers_def pending_clear_all filter_empty_conv)
  have "delivered (clearDebounceTimers w) = delivered w"
    by (simp add: clearDebounceTimers_def setDebounceTimers_def clear_all_others)
  then show ?thesis
    using p by (simp add: advance_quiet)
qed

lemma startWorld_issue:
  "detectFeaturesAtPixelDebounced 0 nearPixel repeating hoverOptions startWorld =
     startWorld\<lparr>pending := [\<lparr>handle = 1, due = 50, tKey = ''hover'', tMap = 0,
                               tPixel = nearPixel, tCallback = repeating,
                               tOptions = hoverOptions\<rparr>],
                nextHandle := 2,
                det := scenario\<lparr>debounceTimers := [(''hover'', 1)]\<rparr>\<rparr>"
  by (simp add: detectFeaturesAtPixelDebounced_def startWorld_def keyOf_def delayOf_def
      hoverOptions_def setTimeout_def setDebounceTimers_def scenario_tree Let_def)

lemma tick_single_redetect:
  assumes "pending w = [tm]" and "due tm \<le> clock w"
    and "tCallback tm = NotifyThenDetect i m px cb options"
  shows "tick inside w =
     w\<lparr>pending := [\<lparr>handle = nextHandle w, due = clock w + max 1 (delayOf options),
                     tKey = keyOf options, tMap = m, tPixel = px, tCallback = cb,
                     tOptions = options\<rparr>],
       nextHandle := Suc (nextHandle w),
       delivered := delivered w @
         [(i, detectFeaturesAtPixel inside (det w) (maps w (tMap tm)) (tPixel tm) (tOptions tm))],
       det := (det w)\<lparr>debounceTimers :=
                AList.delete (tKey tm)
                  (AList.update (keyOf options) (nextHandle w) (debounceTimers (det w)))\<rparr>\<rparr>"
  using assms
  by (auto simp: tick_def fireHandle_def fire_def Let_def clearTimeout_def setDebounceTimers_def
      detectFeaturesAtPixelDebounced_def setTimeout_def detectFeaturesAtPixel_tree[of "det w\<lparr>debounceTimers := x\<rparr>" "det w" for x]
      split: option.splits)

lemma afterFirstFire_eq:
  "afterFirstFire =
     startWorld\<lparr>clock := 50,
                pending := [\<lparr>handle = 2, due = 100, tKey = ''hover'', tMap = 0,
                               tPixel = nearPixel, tCallback = Notify 2,
                               tOptions = hoverOptions\<rparr>],
                nextHandle := 3,
                det := scenario\<lparr>debounceTimers := []\<rparr>,
                delivered := [(1, [pointFeature])]\<rparr>"
proof -
  let ?tm = "\<lparr>handle = 1, due = 50, tKey = ''hover'', tMap = 0,
                               tPixel = nearPixel, tCallback = repeating,
                               tOptions = hoverOptions\<rparr>"
  let ?w0 = "startWorld\<lparr>pending := [?tm], nextHandle := 2,
                det := scenario\<lparr>debounceTimers := [(''hover'', 1)]\<rparr>\<rparr>"
  let ?w1 = "?w0\<lparr>clock := 50\<rparr>"
  have k: "keyOf hoverOptions = ''hover''" and d: "delayOf hoverOptions = 50"
    by (simp_all add: keyOf_def delayOf_def hoverOptions_def)
  have "advance neverInside 49 ?w0 = ?w0\<lparr>clock := clock ?w0 + 49\<rparr>"
    by (rule advance_idle) (simp add: startWorld_def)
  then have 1: "advance neverInside 50 ?w0 = tick neverInside ?w1"
    using advance_add[of neverInside 49 1 ?w0] by (simp add: startWorld_def)
  have 2: "tick neverInside ?w1 =
     ?w1\<lparr>pending := [\<lparr>handle = nextHandle ?w1, due = clock ?w1 + max 1 (delayOf hoverOptions),
                     tKey = keyOf hoverOptions, tMap = 0, tPixel = nearPixel, tCallback = Notify 2,
                     tOptions = hoverOptions\<rparr>],
       nextHandle := Suc (nextHandle ?w1),
       delivered := delivered ?w1 @
         [(1, detectFeaturesAtPixel neverInside (det ?w1) (maps ?w1 (tMap ?tm)) (tPixel ?tm)
                (tOptions ?tm))],
       det := (det ?w1)\<lparr>debounceTimers :=
                AList.delete (tKey ?tm)
                  (AList.update (keyOf hoverOptions) (nextHandle ?w1) (debounceTimers (det ?w1)))\<rparr>\<rparr>"
    by (rule tick_single_redetect) (simp_all add: repeating_def)
  have 3: "detectFeaturesAtPixel neverInside (det ?w1) (maps ?w1 (tMap ?tm)) (tPixel ?tm)
                (tOptions ?tm) = [pointFeature]"
    by (simp add: startWorld_def nearPixel_detect)
  show ?thesis
    unfolding afterFirstFire_def startWorld_issue 1 2 3
    by (simp add: k d startWorld_def)
qed

text \<open>
  Claim C10 asks that after \<open>clearDebounceTimers\<close> returns no previously scheduled
  debounced callback fires, however far time advances, and that repeated calls are
  idempotent. The second part holds (\<open>clearDebounceTimers_idem\<close>), and so does the
  first whenever every pending timer is recorded in \<open>debounceTimers\<close>
  (\<open>clearDebounceTimers_tracked\<close>). The closure deletes the key after the callback has
  run, so a callback that issues a debounced call with its own key leaves the new timer
  pending and unrecorded. At that input: a call with key \<open>hover\<close> and delay 50 whose
  callback queries again with the same key; after 50 milliseconds the first callback
  has run, the timer with handle 2 is pending and \<open>debounceTimers\<close> is empty;
  \<open>clearDebounceTimers\<close> changes nothing; 50 milliseconds later the second callback
  fires.
\<close>

theorem rescheduled_timer_survives_clear:
  "map handle (pending afterFirstFire) = [2]
   \<and> debounceTimers (det afterFirstFire) = []
   \<and> afterClear = afterFirstFire
   \<and> delivered afterClear = [(1, [pointFeature])]
   \<and> delivered (advance neverInside 50 afterClear) = [(1, [pointFeature]), (2, [pointFeature])]"
proof -
  have c: "afterClear = afterFirstFire"
    unfolding afterClear_def by (rule clearDebounceTimers_none) (simp add: afterFirstFire_eq)
  let ?tm = "\<lparr>handle = 2, due = 100, tKey = ''hover'', tMap = 0,
                               tPixel = nearPixel, tCallback = Notify 2,
                               tOptions = hoverOptions\<rparr>"
  have "advance neverInside 50 afterFirstFire =
     afterFirstFire\<lparr>clock := clock afterFirstFire + 50, pending := [],
       delivered := delivered afterFirstFire @
         [(2, detectFeaturesAtPixel neverInside (det afterFirstFire)
               (maps afterFirstFire (tMap ?tm)) (tPixel ?tm) (tOptions ?tm))],
       det := (det afterFirstFire)\<lparr>debounceTimers :=
                 AList.delete (tKey ?tm) (debounceTimers (det afterFirstFire))\<rparr>\<rparr>"
    by (rule advance_single_notify) (simp_all add: afterFirstFire_eq startWorld_def)
  then have "delivered (advance neverInside 50 afterFirstFire) =
      [(1, [pointFeature]), (2, [pointFeature])]"
    by (simp add: afterFirstFire_eq startWorld_def nearPixel_detect)
  then show ?thesis
    by (simp add: c) (simp add: afterFirstFire_eq)
qed

end
